theory Spec2Isabelle
  imports Complex_Main "HOL-Library.AList"
begin

section \<open>Data model of \<open>Mitre_mapper/mapper.py\<close>\<close>

text \<open>
  The mapper reads JSON records into Python dictionaries and looks fields up with
  \<open>dict.get\<close>. A record is modelled with one optional field per key the code reads:
  \<open>None\<close> is the value \<open>dict.get\<close> yields for an absent key (and for a JSON \<open>null\<close>).
  Field values have the types of the input schema: strings, lists of strings, numbers.

  Numbers are modelled as \<open>real\<close>. The code computes with Python floats; every
  comparison the properties below depend on (\<open>== 0.0\<close>, \<open>> 0.0\<close>, \<open>< 0.9\<close>, \<open>== 1.0\<close>,
  \<open>min\<close> against \<open>0.7\<close>, \<open>0.6\<close>, \<open>1.0\<close>) and the division by the power of two \<open>4.0\<close>
  have the same outcome on a float as on the real number it denotes. The map-source
  rate and the repetition threshold \<open>len(sequence) * 0.6\<close> are computed in the reals
  as well; no property below depends on how a float would round them.
  Strings are byte strings; \<open>lower\<close> and \<open>strip\<close> are modelled on ASCII.

  An exception is a value: a function that can raise returns a sum, or the state it
  leaves together with the exception that escapes it. Of the \<open>print\<close> calls only
  those of \<open>load_existing_report\<close> are modelled; the others report progress and
  decide nothing.
\<close>

datatype py_exc =
    FileNotFoundError
  | JSONDecodeError
  | PermissionError
  | IsADirectoryError
  | UnicodeDecodeError
  | ZeroDivisionError
  | KeyError

record seq_record =
  user_id :: "string option"
  sequence :: "string option"
  actions :: "string list option"
  score :: "real option"

record som_record =
  som_user_id :: "string option"
  som_attack_score :: "real option"
  som_benign_score :: "real option"
  som_total_epochs :: "real option"
  som_flagged_epochs :: "real option"

datatype ev_value = EvNum real | EvStr string

text \<open>
  A description is a string literal, except for the f-string of the first map-source
  rule, which renders the anomaly metric with two decimals; that one is kept as the
  number to be rendered.
\<close>

datatype descr = Literal string | SomHighAttack real

record technique =
  id' :: string
  name :: string
  confidence :: real
  rule_matched :: string
  description :: descr
  evidence :: "(string \<times> ev_value) list"

section \<open>String operations used by the sequence rules\<close>

definition lower_char :: "char \<Rightarrow> char" where
  "lower_char c =
     (let n = (of_char c :: nat) in if 65 \<le> n \<and> n \<le> 90 then char_of (n + 32) else c)"

definition lower :: "string \<Rightarrow> string" where
  "lower s = map lower_char s"

definition is_space :: "char \<Rightarrow> bool" where
  "is_space c = ((of_char c :: nat) \<in> {9, 10, 11, 12, 13, 28, 29, 30, 31, 32})"

definition strip :: "string \<Rightarrow> string" where
  "strip s = rev (dropWhile is_space (rev (dropWhile is_space s)))"

text \<open>\<open>s.split('->')\<close>: the pieces between non-overlapping occurrences, left to right.\<close>

fun split_arrow :: "string \<Rightarrow> string list" where
  "split_arrow [] = [[]]"
| "split_arrow [c] = [[c]]"
| "split_arrow (c # d # cs) =
     (if c = CHR ''-'' \<and> d = CHR ''>'' then [] # split_arrow cs
      else (case split_arrow (d # cs) of
              [] \<Rightarrow> [[c]]
            | t # ts \<Rightarrow> (c # t) # ts))"

primrec starts_with :: "string \<Rightarrow> string \<Rightarrow> bool" where
  "starts_with s [] = True"
| "starts_with s (p # ps) = (case s of [] \<Rightarrow> False | c # cs \<Rightarrow> c = p \<and> starts_with cs ps)"

text \<open>\<open>sub in s\<close> on strings: \<open>sub\<close> occurs in \<open>s\<close> as a contiguous substring.\<close>

fun contains :: "string \<Rightarrow> string \<Rightarrow> bool" where
  "contains [] sub = (sub = [])"
| "contains (c # cs) sub = (starts_with (c # cs) sub \<or> contains cs sub)"

section \<open>Anomaly normalizer, sequence source\<close>

text \<open>\<open>calculate_risk_score\<close>, lines 128--137.\<close>

definition calculate_risk_score :: "seq_record \<Rightarrow> real" where
  "calculate_risk_score sequence_data =
     (case score sequence_data of
        None \<Rightarrow> 0.0
      | Some s \<Rightarrow>
          if s = 0.0 then 1.0
          else if s > 0.0 then min 1.0 (s / 4.0)
          else 0.0)"

text \<open>The same computation as it is inlined in \<open>_map_markov_generic\<close>, lines 34--41.\<close>

definition anomaly_score_of :: "real option \<Rightarrow> real" where
  "anomaly_score_of sc =
     (let anomaly_score = 0.0 in
      case sc of
        None \<Rightarrow> anomaly_score
      | Some s \<Rightarrow>
          if s = 0.0 then 1.0
          else if s > 0.0 then min 1.0 (s / 4.0)
          else anomaly_score)"

section \<open>Technique rule engine, sequence source\<close>

definition markov_evidence :: "real \<Rightarrow> (string \<times> ev_value) list" where
  "markov_evidence anomaly_score =
     [(''anomaly_score'', EvNum anomaly_score), (''source'', EvStr ''markov'')]"

definition login_match :: "real \<Rightarrow> technique" where
  "login_match anomaly_score =
     \<lparr> id' = ''T1078'',
       name = ''Valid Accounts'',
       confidence = min 0.7 anomaly_score,
       rule_matched = ''markov_suspicious_login_pattern'',
       description = Literal ''Suspicious login activity detected (Markov)'',
       evidence = markov_evidence anomaly_score \<rparr>"

definition repetitive_match :: "real \<Rightarrow> technique" where
  "repetitive_match anomaly_score =
     \<lparr> id' = ''T1041'',
       name = ''Exfiltration Over Command and Control Channel'',
       confidence = min 0.6 anomaly_score,
       rule_matched = ''markov_repetitive_action_pattern'',
       description = Literal ''Highly repetitive action pattern (Markov)'',
       evidence = markov_evidence anomaly_score \<rparr>"

definition fallback_match :: "real \<Rightarrow> technique" where
  "fallback_match anomaly_score =
     \<lparr> id' = ''TA0009'',
       name = ''Collection'',
       confidence = 0.55,
       rule_matched = ''markov_max_anomaly_score_fallback'',
       description =
         Literal ''Sequence had maximum anomaly (score 0.0) but matched no specific pattern.'',
       evidence = markov_evidence anomaly_score \<rparr>"

text \<open>Line 32: the \<open>sequence\<close> string split at \<open>->\<close> if it is non-empty, else \<open>actions\<close>.\<close>

definition sequence_of :: "seq_record \<Rightarrow> string list" where
  "sequence_of sequence_data =
     (let sequence_str = (case sequence sequence_data of None \<Rightarrow> [] | Some s \<Rightarrow> s) in
      if sequence_str \<noteq> [] then map strip (split_arrow sequence_str)
      else (case actions sequence_data of None \<Rightarrow> [] | Some as \<Rightarrow> as))"

definition noise_actions :: "string list" where
  "noise_actions = [''auth_login'', ''auth_logout'', ''sys_windows_event'']"

text \<open>
  Lines 57--60: \<open>action_counts\<close> is a dictionary in insertion order; an association
  list whose update keeps the position of an existing key.
\<close>

fun count_actions :: "string list \<Rightarrow> (string \<times> nat) list \<Rightarrow> (string \<times> nat) list" where
  "count_actions [] action_counts = action_counts"
| "count_actions (action # rest) action_counts =
     (if lower action \<notin> set noise_actions
      then count_actions rest
             (AList.update (lower action)
                ((case map_of action_counts (lower action) of None \<Rightarrow> 0 | Some c \<Rightarrow> c) + 1)
                action_counts)
      else count_actions rest action_counts)"

text \<open>Lines 62--72: the loop over the counts, left at the first count that qualifies.\<close>

fun repetitive_loop ::
  "(string \<times> nat) list \<Rightarrow> nat \<Rightarrow> real \<Rightarrow> technique list \<Rightarrow> technique list" where
  "repetitive_loop [] n anomaly_score techniques = techniques"
| "repetitive_loop ((action, count) # rest) n anomaly_score techniques =
     (if real count \<ge> real n * 0.6 then techniques @ [repetitive_match anomaly_score]
      else repetitive_loop rest n anomaly_score techniques)"

text \<open>
  \<open>_map_markov_generic\<close>, lines 28--84, named without its leading underscore. The
  list \<open>techniques\<close> grows by appending; \<open>t1\<close>, \<open>t2\<close>, \<open>t3\<close> are its values after
  the first, second and third rule.
\<close>

definition map_markov_generic :: "seq_record \<Rightarrow> technique list" where
  "map_markov_generic sequence_data =
     (let techniques = [];
          sequence = sequence_of sequence_data;
          anomaly_score = anomaly_score_of (score sequence_data)
      in
      if anomaly_score < 0.9 then techniques
      else
        let t1 = (if list_ex (\<lambda>action. contains (lower action) ''login'') sequence
                  then techniques @ [login_match anomaly_score] else techniques);
            t2 = (if length sequence \<ge> 3
                  then repetitive_loop (count_actions sequence []) (length sequence)
                         anomaly_score t1
                  else t1);
            t3 = (if anomaly_score = 1.0 \<and> t2 = [] then t2 @ [fallback_match anomaly_score]
                  else t2)
        in t3)"

definition map_markov_sequence :: "seq_record \<Rightarrow> technique list" where
  "map_markov_sequence sequence_data = map_markov_generic sequence_data"

text \<open>Whether a result holds a match of the rule with the given \<open>rule_matched\<close> name.\<close>

definition fired :: "string \<Rightarrow> technique list \<Rightarrow> bool" where
  "fired rule techniques = list_ex (\<lambda>t. rule_matched t = rule) techniques"

section \<open>Anomaly normalizer and rule engine, map source\<close>

definition high_attack_match :: "real \<Rightarrow> real \<Rightarrow> technique" where
  "high_attack_match attack_score anomaly_metric =
     \<lparr> id' = ''T1070.004'',
       name = ''Indicator Removal: File Deletion'',
       confidence = min 0.9 (0.5 + anomaly_metric),
       rule_matched = ''som_high_attack_score'',
       description = SomHighAttack anomaly_metric,
       evidence = [(''attack_score'', EvNum attack_score),
                   (''anomaly_metric'', EvNum anomaly_metric),
                   (''source'', EvStr ''som'')] \<rparr>"

definition proxy_match :: "real \<Rightarrow> technique" where
  "proxy_match flagged =
     \<lparr> id' = ''T1090'',
       name = ''Proxy'',
       confidence = 0.65,
       rule_matched = ''som_always_flagged_no_attack_score'',
       description = Literal
         ''User consistently flagged, but low attack score, suggesting an unusual persistent process.'',
       evidence = [(''flagged_epochs'', EvNum flagged), (''source'', EvStr ''som'')] \<rparr>"

definition mixed_match :: "real \<Rightarrow> real \<Rightarrow> real \<Rightarrow> technique" where
  "mixed_match attack_score benign_score anomaly_metric =
     \<lparr> id' = ''T1078'',
       name = ''Valid Accounts'',
       confidence = min 0.8 (0.5 + anomaly_metric),
       rule_matched = ''som_mixed_high_attack_score'',
       description = Literal
         ''Mixed normal and attack activity, hinting at legitimate credential misuse.'',
       evidence = [(''attack_score'', EvNum attack_score),
                   (''benign_score'', EvNum benign_score),
                   (''source'', EvStr ''som'')] \<rparr>"

text \<open>\<open>d.get(key, default)\<close>.\<close>

definition get_default :: "'a option \<Rightarrow> 'a \<Rightarrow> 'a" where
  "get_default field dflt = (case field of None \<Rightarrow> dflt | Some v \<Rightarrow> v)"

text \<open>
  \<open>map_som_results\<close>, lines 86--126. The division of line 93 raises
  \<open>ZeroDivisionError\<close> on a zero divisor, and \<open>som_data['flagged_epochs']\<close> of
  line 113 raises \<open>KeyError\<close> on an absent key.
\<close>

definition map_som_results :: "som_record \<Rightarrow> py_exc + technique list" where
  "map_som_results som_data =
     (let techniques = [];
          attack_score = get_default (som_attack_score som_data) 0;
          benign_score = get_default (som_benign_score som_data) 0;
          total_epochs = get_default (som_total_epochs som_data) 1
      in
      if total_epochs = 0 then Inl ZeroDivisionError
      else
        let anomaly_metric = attack_score / total_epochs;
            t1 = (if anomaly_metric \<ge> 0.3
                  then techniques @ [high_attack_match attack_score anomaly_metric]
                  else techniques)
        in
        case (if get_default (som_flagged_epochs som_data) 0 = total_epochs \<and> attack_score = 0
              then (case som_flagged_epochs som_data of
                      None \<Rightarrow> Inl KeyError
                    | Some flagged \<Rightarrow> Inr (t1 @ [proxy_match flagged]))
              else Inr t1) of
          Inl e \<Rightarrow> Inl e
        | Inr t2 \<Rightarrow>
            Inr (if attack_score > 0 \<and> benign_score > 0 \<and> attack_score > benign_score
                 then t2 @ [mixed_match attack_score benign_score anomaly_metric]
                 else t2))"

section \<open>Report entries\<close>

datatype raw_record = MarkovRaw seq_record | SomRaw som_record

record detection_entry =
  sequence_id :: string
  entry_user_id :: string
  raw_data :: raw_record
  source :: string
  detected_techniques :: "technique list"

text \<open>The decimal rendering of \<open>i+1\<close> in the f-strings of the sequence identifiers.\<close>

definition digit_char :: "nat \<Rightarrow> char" where
  "digit_char d = char_of (48 + d)"

fun str_nat :: "nat \<Rightarrow> string" where
  "str_nat n = (if n < 10 then [digit_char n] else str_nat (n div 10) @ [digit_char (n mod 10)])"

declare str_nat.simps [simp del]

section \<open>Per-user risk reducer and sequence-source processing\<close>

text \<open>
  A line of the sequence file after \<open>json.loads\<close>: the call raised \<open>JSONDecodeError\<close>
  or returned a record.
\<close>

datatype json_line = Malformed | Parsed seq_record

record riskiest =
  risk_score :: real
  data :: seq_record
  original_line_num :: nat

text \<open>
  Lines 160--179. \<open>riskiest_sequences_by_user\<close> is a dictionary in insertion order:
  assigning to a key that is present keeps the key's position.
\<close>

fun reduce_lines ::
  "json_line list \<Rightarrow> nat \<Rightarrow> (string \<times> riskiest) list \<Rightarrow> nat \<times> (string \<times> riskiest) list" where
  "reduce_lines [] total_sequences by_user = (total_sequences, by_user)"
| "reduce_lines (line # rest) total_sequences by_user =
     (let total = total_sequences + 1 in
      case line of
        Malformed \<Rightarrow> reduce_lines rest total by_user
      | Parsed sequence_data \<Rightarrow>
          (case user_id sequence_data of
             None \<Rightarrow> reduce_lines rest total by_user
           | Some uid \<Rightarrow>
               if uid = [] then reduce_lines rest total by_user
               else
                 let current_risk = calculate_risk_score sequence_data;
                     best = \<lparr> risk_score = current_risk, data = sequence_data,
                              original_line_num = total \<rparr>
                 in
                 (case map_of by_user uid of
                    None \<Rightarrow> reduce_lines rest total (AList.update uid best by_user)
                  | Some old \<Rightarrow>
                      if current_risk > risk_score old
                      then reduce_lines rest total (AList.update uid best by_user)
                      else reduce_lines rest total by_user)))"

definition riskiest_sequences_by_user :: "json_line list \<Rightarrow> (string \<times> riskiest) list" where
  "riskiest_sequences_by_user lines = snd (reduce_lines lines 0 [])"

definition markov_entry :: "nat \<Rightarrow> string \<Rightarrow> seq_record \<Rightarrow> technique list \<Rightarrow> detection_entry" where
  "markov_entry i uid sequence_data techniques =
     \<lparr> sequence_id = ''Markov_User_'' @ str_nat (i + 1) @ ''_TopRisk'',
       entry_user_id = uid,
       raw_data = MarkovRaw sequence_data,
       source = ''markov'',
       detected_techniques = techniques \<rparr>"

text \<open>Lines 188--203: the loop over the retained records, appending to the report.\<close>

fun report_riskiest ::
  "nat \<Rightarrow> (string \<times> riskiest) list \<Rightarrow> detection_entry list \<Rightarrow> detection_entry list" where
  "report_riskiest i [] report_list = report_list"
| "report_riskiest i ((uid, item) # rest) report_list =
     (let sequence_data = data item;
          techniques = map_markov_sequence sequence_data
      in
      if techniques \<noteq> []
      then report_riskiest (i + 1) rest
             (report_list @ [markov_entry i uid sequence_data techniques])
      else report_riskiest (i + 1) rest report_list)"

text \<open>
  \<open>process_markov_file\<close>. The file is given by what reading it yields: the exception
  \<open>open\<close> raises, or its lines. The result is the report list as the call leaves it
  and the exception that escapes the call, if any. Only \<open>FileNotFoundError\<close> is caught.
\<close>

definition process_markov_file ::
  "py_exc + json_line list \<Rightarrow> detection_entry list \<Rightarrow> detection_entry list \<times> py_exc option" where
  "process_markov_file file report_list =
     (case file of
        Inl e \<Rightarrow> if e = FileNotFoundError then (report_list, None) else (report_list, Some e)
      | Inr lines \<Rightarrow>
          (report_riskiest 0 (riskiest_sequences_by_user lines) report_list, None))"

section \<open>Map-source processing\<close>

definition som_entry :: "nat \<Rightarrow> som_record \<Rightarrow> technique list \<Rightarrow> detection_entry" where
  "som_entry i som_data techniques =
     \<lparr> sequence_id = ''SOM_User_'' @ str_nat (i + 1),
       entry_user_id = get_default (som_user_id som_data) ''N/A'',
       raw_data = SomRaw som_data,
       source = ''som'',
       detected_techniques = techniques \<rparr>"

text \<open>Lines 219--232: an exception of \<open>map_som_results\<close> ends the loop where it is raised.\<close>

fun som_loop ::
  "nat \<Rightarrow> som_record list \<Rightarrow> detection_entry list \<Rightarrow> detection_entry list \<times> py_exc option" where
  "som_loop i [] report_list = (report_list, None)"
| "som_loop i (som_data # rest) report_list =
     (case map_som_results som_data of
        Inl e \<Rightarrow> (report_list, Some e)
      | Inr techniques \<Rightarrow>
          if techniques \<noteq> []
          then som_loop (i + 1) rest (report_list @ [som_entry i som_data techniques])
          else som_loop (i + 1) rest report_list)"

text \<open>
  \<open>process_som_file\<close>. The file is given by what \<open>open\<close> and \<open>json.load\<close> yield.
  \<open>FileNotFoundError\<close> and \<open>JSONDecodeError\<close> are caught, whatever raised them in
  the \<open>try\<close> block; any other exception escapes.
\<close>

definition process_som_file ::
  "py_exc + som_record list \<Rightarrow> detection_entry list \<Rightarrow> detection_entry list \<times> py_exc option" where
  "process_som_file file report_list =
     (let (report_list', raised) =
            (case file of
               Inl e \<Rightarrow> (report_list, Some e)
             | Inr som_results \<Rightarrow> som_loop 0 som_results report_list)
      in
      case raised of
        None \<Rightarrow> (report_list', None)
      | Some e \<Rightarrow>
          if e = FileNotFoundError \<or> e = JSONDecodeError then (report_list', None)
          else (report_list', Some e))"

section \<open>Report merger\<close>

text \<open>
  The report file: its bytes if it exists, the exception that opening it for reading
  raises, if any, and the exception that opening it for writing raises, if any.
  \<open>json.load\<close> and \<open>json.dump\<close> belong to the Python library and are parameters:
  \<open>json_load\<close> gives, for the bytes of a file, the parsed report or the exception raised.
\<close>

record report_file =
  rf_content :: "string option"
  rf_read_error :: "py_exc option"
  rf_write_error :: "py_exc option"

datatype printed = Loading_existing_report | Warning_could_not_load py_exc

text \<open>
  \<open>load_existing_report\<close>, lines 139--148, with what it prints. The \<open>except\<close> clause
  names \<open>FileNotFoundError\<close> and \<open>JSONDecodeError\<close>; any other exception escapes.
\<close>

definition load_existing_report ::
  "(string \<Rightarrow> py_exc + detection_entry list) \<Rightarrow> report_file \<Rightarrow>
   printed list \<times> (py_exc + detection_entry list)" where
  "load_existing_report json_load file =
     (let (out, r) =
            (case rf_content file of
               None \<Rightarrow> ([], Inr [])
             | Some bytes \<Rightarrow>
                 if length bytes > 0
                 then (case rf_read_error file of
                         Some e \<Rightarrow> ([], Inl e)
                       | None \<Rightarrow> ([Loading_existing_report], json_load bytes))
                 else ([], Inr []))
      in
      case r of
        Inr report \<Rightarrow> (out, Inr report)
      | Inl e \<Rightarrow>
          if e = FileNotFoundError \<or> e = JSONDecodeError
          then (out @ [Warning_could_not_load e], Inr [])
          else (out, Inl e))"

record args =
  markov_file :: "(py_exc + json_line list) option"
  som_file :: "(py_exc + som_record list) option"

datatype run_end = Exit nat | Uncaught py_exc | Completed "detection_entry list"

text \<open>
  Lines 265--271: \<open>open(..., 'w')\<close> and \<open>json.dump\<close>. An exception of \<open>open\<close> is
  caught and reported, and the file stays as it was. A failure after the file has been
  opened for writing is not modelled.
\<close>

definition write_report ::
  "(detection_entry list \<Rightarrow> string) \<Rightarrow> report_file \<Rightarrow> detection_entry list \<Rightarrow> report_file" where
  "write_report json_dump file final_report =
     (case rf_write_error file of
        Some e \<Rightarrow> file
      | None \<Rightarrow> file\<lparr>rf_content := Some (json_dump final_report)\<rparr>)"

text \<open>
  The main block, lines 250--275: the report file after the run and how the run ended.
  A command-line option is \<open>None\<close> when it is not given, else what reading the file it
  names yields.
\<close>

definition main ::
  "(string \<Rightarrow> py_exc + detection_entry list) \<Rightarrow> (detection_entry list \<Rightarrow> string) \<Rightarrow>
   args \<Rightarrow> report_file \<Rightarrow> report_file \<times> run_end" where
  "main json_load json_dump a file =
     (if markov_file a = None \<and> som_file a = None then (file, Exit 1)
      else
        (case snd (load_existing_report json_load file) of
           Inl e \<Rightarrow> (file, Uncaught e)
         | Inr final_report \<Rightarrow>
             (let initial_report_size = length final_report in
              (case (case markov_file a of
                       Some f \<Rightarrow> process_markov_file f final_report
                     | None \<Rightarrow> (final_report, None)) of
                 (r1, Some e) \<Rightarrow> (file, Uncaught e)
               | (r1, None) \<Rightarrow>
                   (case (case som_file a of
                            Some f \<Rightarrow> process_som_file f r1
                          | None \<Rightarrow> (r1, None)) of
                      (r2, Some e) \<Rightarrow> (file, Uncaught e)
                    | (r2, None) \<Rightarrow>
                        (if length r2 > initial_report_size
                         then (write_report json_dump file r2, Completed r2)
                         else (file, Completed r2)))))))"

section \<open>Specification-level notions\<close>

text \<open>
  The per-user reduction as the specification words it: among the records of one user,
  in input order, the first one whose risk score is the maximum of their risk scores.
  Records without a user identifier, or with an empty one, belong to no user.
\<close>

fun records_of :: "json_line list \<Rightarrow> seq_record list" where
  "records_of [] = []"
| "records_of (Malformed # rest) = records_of rest"
| "records_of (Parsed sequence_data # rest) = sequence_data # records_of rest"

definition user_records :: "string \<Rightarrow> json_line list \<Rightarrow> seq_record list" where
  "user_records u lines = filter (\<lambda>sd. user_id sd = Some u) (records_of lines)"

definition first_maximal :: "seq_record list \<Rightarrow> seq_record option" where
  "first_maximal rs =
     (if rs = [] then None
      else find (\<lambda>sd. calculate_risk_score sd = Max (set (map calculate_risk_score rs))) rs)"

definition retained_for :: "string \<Rightarrow> json_line list \<Rightarrow> seq_record option" where
  "retained_for u lines = (if u = [] then None else first_maximal (user_records u lines))"

text \<open>
  What the slot of one user holds after the loop of lines 160--179, from what it held
  before; the loop seen from a single key.
\<close>

fun slot :: "string \<Rightarrow> json_line list \<Rightarrow> seq_record option \<Rightarrow> seq_record option" where
  "slot u [] b = b"
| "slot u (Malformed # rest) b = slot u rest b"
| "slot u (Parsed sd # rest) b =
     (if user_id sd = Some u \<and> u \<noteq> [] then
        (case b of
           None \<Rightarrow> slot u rest (Some sd)
         | Some old \<Rightarrow>
             if calculate_risk_score sd > calculate_risk_score old then slot u rest (Some sd)
             else slot u rest b)
      else slot u rest b)"

text \<open>The stored risk score of every slot is the risk score of the stored record.\<close>

definition consistent :: "(string \<times> riskiest) list \<Rightarrow> bool" where
  "consistent d = (\<forall>k b. map_of d k = Some b \<longrightarrow> risk_score b = calculate_risk_score (data b))"

text \<open>
  A report entry is justified when its techniques are not empty and are what the rule
  engine returns on the entry's raw record.
\<close>

definition entry_justified :: "detection_entry \<Rightarrow> bool" where
  "entry_justified e =
     (detected_techniques e \<noteq> [] \<and>
      (case raw_data e of
         MarkovRaw sequence_data \<Rightarrow> map_markov_sequence sequence_data = detected_techniques e
       | SomRaw som_data \<Rightarrow> map_som_results som_data = Inr (detected_techniques e)))"

section \<open>Example inputs\<close>

text \<open>The three end-to-end examples of the specification, and further records.\<close>

definition example_1 :: seq_record where
  "example_1 = \<lparr> user_id = Some ''u1'', sequence = None,
                 actions = Some [''login'', ''compress_data''], score = Some 0.0 \<rparr>"

definition example_2 :: seq_record where
  "example_2 = \<lparr> user_id = Some ''u2'', sequence = None,
                 actions = Some [''foo'', ''foo'', ''foo''], score = Some 0.5 \<rparr>"

definition example_3 :: som_record where
  "example_3 = \<lparr> som_user_id = Some ''u3'', som_attack_score = Some 5,
                 som_benign_score = Some 1, som_total_epochs = Some 10,
                 som_flagged_epochs = Some 10 \<rparr>"

definition no_pattern :: seq_record where
  "no_pattern = \<lparr> user_id = Some ''u4'', sequence = Some ''read -> write'',
                  actions = None, score = Some 6 \<rparr>"

definition repeated_login :: seq_record where
  "repeated_login = \<lparr> user_id = Some ''u5'', sequence = None,
                      actions = Some [''Login'', ''login'', ''LOGIN''], score = Some 0 \<rparr>"

definition zero_epochs :: som_record where
  "zero_epochs = \<lparr> som_user_id = Some ''u6'', som_attack_score = Some 3,
                   som_benign_score = Some 1, som_total_epochs = Some 0,
                   som_flagged_epochs = Some 2 \<rparr>"

definition never_evaluated :: som_record where
  "never_evaluated = \<lparr> som_user_id = Some ''u7'', som_attack_score = Some 0,
                       som_benign_score = Some 0, som_total_epochs = Some 0,
                       som_flagged_epochs = Some 0 \<rparr>"

definition rec_of :: "string option \<Rightarrow> string \<Rightarrow> real option \<Rightarrow> seq_record" where
  "rec_of uid tag sc = \<lparr> user_id = uid, sequence = None, actions = Some [tag], score = sc \<rparr>"

definition batch :: "json_line list" where
  "batch =
     [Parsed (rec_of (Some ''a'') ''1'' (Some 2)),
      Malformed,
      Parsed (rec_of (Some ''b'') ''2'' (Some 1)),
      Parsed (rec_of None ''3'' (Some 0)),
      Parsed (rec_of (Some []) ''4'' (Some 0)),
      Parsed (rec_of (Some ''a'') ''5'' (Some 3)),
      Parsed (rec_of (Some ''a'') ''6'' (Some 3)),
      Parsed (rec_of (Some ''b'') ''7'' (Some 0.5))]"

text \<open>Stand-ins for \<open>json.load\<close> and \<open>json.dump\<close> in the examples.\<close>

definition load_as :: "detection_entry list \<Rightarrow> string \<Rightarrow> py_exc + detection_entry list" where
  "load_as report bytes = Inr report"

definition load_raises :: "py_exc \<Rightarrow> string \<Rightarrow> py_exc + detection_entry list" where
  "load_raises e bytes = Inl e"

definition dump_count :: "detection_entry list \<Rightarrow> string" where
  "dump_count report = str_nat (length report)"

definition stored_report :: report_file where
  "stored_report = \<lparr> rf_content = Some ''[]'', rf_read_error = None, rf_write_error = None \<rparr>"

definition unreadable_report :: report_file where
  "unreadable_report =
     \<lparr> rf_content = Some ''[]'', rf_read_error = Some PermissionError, rf_write_error = None \<rparr>"

section \<open>Auxiliary facts\<close>

subsection \<open>Sequence-source rules\<close>

lemma anomaly_score_of_risk:
  "anomaly_score_of (score sequence_data) = calculate_risk_score sequence_data"
  by (simp add: anomaly_score_of_def calculate_risk_score_def split: option.splits)

text \<open>The loop over the counts appends the repetitive-action match once or not at all.\<close>

lemma repetitive_loop_cases:
  "repetitive_loop items n a ts = ts \<or> repetitive_loop items n a ts = ts @ [repetitive_match a]"
  by (induction items n a ts rule: repetitive_loop.induct) auto

text \<open>The possible results of the rule engine on a record that passes the gate.\<close>

lemma map_markov_generic_shapes:
  assumes "\<not> calculate_risk_score r < 0.9"
  shows "map_markov_generic r \<in>
           { [login_match (calculate_risk_score r)],
             [login_match (calculate_risk_score r), repetitive_match (calculate_risk_score r)],
             [repetitive_match (calculate_risk_score r)] }
         \<or> map_markov_generic r = [fallback_match (calculate_risk_score r)]
             \<and> calculate_risk_score r = 1
         \<or> map_markov_generic r = [] \<and> calculate_risk_score r \<noteq> 1"
proof -
  let ?a = "calculate_risk_score r"
  let ?n = "length (sequence_of r)"
  let ?items = "count_actions (sequence_of r) []"
  have "repetitive_loop ?items ?n ?a [] = []
          \<or> repetitive_loop ?items ?n ?a [] = [] @ [repetitive_match ?a]"
    and "repetitive_loop ?items ?n ?a [login_match ?a] = [login_match ?a]
          \<or> repetitive_loop ?items ?n ?a [login_match ?a] = [login_match ?a] @ [repetitive_match ?a]"
    by (rule repetitive_loop_cases)+
  with assms show ?thesis
    unfolding map_markov_generic_def anomaly_score_of_risk Let_def
    by auto
qed

lemma gate_closed: "calculate_risk_score r < 0.9 \<Longrightarrow> map_markov_generic r = []"
  by (simp add: map_markov_generic_def anomaly_score_of_risk)

lemma match_fields [simp]:
  "rule_matched (login_match a) = ''markov_suspicious_login_pattern''"
  "rule_matched (repetitive_match a) = ''markov_repetitive_action_pattern''"
  "rule_matched (fallback_match a) = ''markov_max_anomaly_score_fallback''"
  "id' (login_match a) = ''T1078''"
  "id' (repetitive_match a) = ''T1041''"
  "id' (fallback_match a) = ''TA0009''"
  "name (fallback_match a) = ''Collection''"
  "confidence (login_match a) = min 0.7 a"
  "confidence (repetitive_match a) = min 0.6 a"
  "confidence (fallback_match a) = 0.55"
  by (simp_all add: login_match_def repetitive_match_def fallback_match_def)

subsection \<open>Map-source rules\<close>

lemma map_som_results_raises:
  "map_som_results som_data = Inl e \<Longrightarrow> e = ZeroDivisionError \<and> som_total_epochs som_data = Some 0"
  by (auto simp: map_som_results_def get_default_def Let_def split: if_splits option.splits)

lemma map_som_results_returns:
  "som_total_epochs som_data \<noteq> Some 0 \<Longrightarrow> \<exists>techniques. map_som_results som_data = Inr techniques"
  using map_som_results_raises [of som_data] by (cases "map_som_results som_data") auto

text \<open>
  Where \<open>map_som_results\<close> returns, the always-flagged rule has fired exactly when the
  flagged epochs equal the total epochs and the attack score is zero.
\<close>

lemma proxy_rule_where_returns:
  assumes "map_som_results som_data = Inr techniques"
  shows "fired ''som_always_flagged_no_attack_score'' techniques =
           (get_default (som_flagged_epochs som_data) 0 = get_default (som_total_epochs som_data) 1
            \<and> get_default (som_attack_score som_data) 0 = 0)"
    and "list_all (\<lambda>t. rule_matched t = ''som_always_flagged_no_attack_score'' \<longrightarrow>
                        id' t = ''T1090'' \<and> name t = ''Proxy'' \<and> confidence t = 0.65) techniques"
  using assms
  by (auto simp: map_som_results_def get_default_def Let_def fired_def
                 high_attack_match_def proxy_match_def mixed_match_def
           split: if_splits option.splits)

subsection \<open>Per-user reduction\<close>

lemma consistent_update:
  "consistent d \<Longrightarrow> risk_score b = calculate_risk_score (data b) \<Longrightarrow>
   consistent (AList.update k b d)"
  by (simp add: consistent_def update_conv')

lemma reduce_lines_slot:
  "consistent d \<Longrightarrow>
   map_option data (map_of (snd (reduce_lines lines n d)) u) =
     slot u lines (map_option data (map_of d u))"
proof (induction lines arbitrary: n d)
  case Nil
  then show ?case by simp
next
  case (Cons line rest)
  show ?case
  proof (cases line)
    case Malformed
    then show ?thesis using Cons by simp
  next
    case (Parsed sd)
    show ?thesis
    proof (cases "user_id sd")
      case None
      then show ?thesis using Cons Parsed by simp
    next
      case (Some uid)
      show ?thesis
      proof (cases "uid = []")
        case True
        then show ?thesis using Cons Parsed Some by auto
      next
        case False
        let ?b = "\<lparr>risk_score = calculate_risk_score sd, data = sd, original_line_num = n + 1\<rparr>"
        have cu: "consistent (AList.update uid ?b d)"
          using Cons.prems by (simp add: consistent_update)
        note ih_new = Cons.IH [OF cu, of "n + 1"]
        note ih_old = Cons.IH [OF Cons.prems, of "n + 1"]
        show ?thesis
        proof (cases "map_of d uid")
          case None
          then show ?thesis
            using Parsed Some False ih_new ih_old by (auto simp: update_conv' Let_def)
        next
          case (Some old)
          have "risk_score old = calculate_risk_score (data old)"
            using Cons.prems Some by (simp add: consistent_def)
          then show ?thesis
            using Parsed \<open>user_id sd = Some uid\<close> Some False ih_new ih_old
            by (auto simp: update_conv' Let_def)
        qed
      qed
    qed
  qed
qed

lemma reduce_lines_distinct:
  "distinct (map fst d) \<Longrightarrow> distinct (map fst (snd (reduce_lines lines n d)))"
  by (induction lines n d rule: reduce_lines.induct)
     (auto simp: Let_def distinct_update split: json_line.splits option.splits)

lemma first_maximal_single: "first_maximal [sd] = Some sd"
  by (simp add: first_maximal_def)

text \<open>A later record displaces an earlier one only with a strictly greater risk score.\<close>

lemma first_maximal_Cons2:
  "first_maximal (b # sd # rs) =
     (if calculate_risk_score sd > calculate_risk_score b then first_maximal (sd # rs)
      else first_maximal (b # rs))"
proof -
  let ?f = calculate_risk_score
  have all: "Max (set (map ?f (b # sd # rs))) = max (?f b) (Max (set (map ?f (sd # rs))))"
    by simp
  have ge_sd: "?f sd \<le> Max (set (map ?f (sd # rs)))"
    by (rule Max_ge) simp_all
  have ge_b: "?f b \<le> Max (set (map ?f (b # rs)))"
    by (rule Max_ge) simp_all
  show ?thesis
  proof (cases "?f sd > ?f b")
    case True
    with all ge_sd have m: "Max (set (map ?f (b # sd # rs))) = Max (set (map ?f (sd # rs)))"
      by linarith
    have "?f b \<noteq> Max (set (map ?f (sd # rs)))"
      using True ge_sd by linarith
    with True m show ?thesis
      by (simp add: first_maximal_def del: Max_insert set_simps list.map)
  next
    case False
    have "set (map ?f (b # sd # rs)) = insert (?f sd) (set (map ?f (b # rs)))"
      by auto
    then have "Max (set (map ?f (b # sd # rs))) = max (?f sd) (Max (set (map ?f (b # rs))))"
      by (simp del: set_simps list.map)
    with False ge_b have m: "Max (set (map ?f (b # sd # rs))) = Max (set (map ?f (b # rs)))"
      by linarith
    have "?f sd = Max (set (map ?f (b # rs))) \<Longrightarrow> ?f b = Max (set (map ?f (b # rs)))"
      using False ge_b by linarith
    with False m show ?thesis
      by (auto simp add: first_maximal_def simp del: Max_insert set_simps list.map)
  qed
qed

lemma first_maximal_None_iff: "first_maximal rs = None \<longleftrightarrow> rs = []"
proof (cases "rs = []")
  case True
  then show ?thesis by (simp add: first_maximal_def)
next
  case False
  then have "Max (set (map calculate_risk_score rs)) \<in> set (map calculate_risk_score rs)"
    by (intro Max_in) simp_all
  then obtain sd where "sd \<in> set rs"
    and "calculate_risk_score sd = Max (set (map calculate_risk_score rs))"
    by auto
  then show ?thesis using False by (auto simp: first_maximal_def find_None_iff)
qed

text \<open>
  The record \<open>first_maximal\<close> selects: no record of the list has a greater risk
  score, and every record before it has a strictly smaller one.
\<close>

lemma first_maximal_SomeD:
  assumes "first_maximal rs = Some sd"
  shows "\<exists>i<length rs. rs ! i = sd
           \<and> (\<forall>j<length rs. calculate_risk_score (rs ! j) \<le> calculate_risk_score sd)
           \<and> (\<forall>j<i. calculate_risk_score (rs ! j) < calculate_risk_score sd)"
proof -
  let ?f = calculate_risk_score
  let ?M = "Max (set (map ?f rs))"
  from assms have ne: "rs \<noteq> []" and fnd: "find (\<lambda>x. ?f x = ?M) rs = Some sd"
    by (auto simp: first_maximal_def split: if_splits)
  from fnd obtain i where i: "i < length rs" "?f (rs ! i) = ?M" "sd = rs ! i"
    and before: "\<forall>j<i. ?f (rs ! j) \<noteq> ?M"
    by (auto simp: find_Some_iff)
  have le: "?f (rs ! j) \<le> ?M" if "j < length rs" for j
    using that by (intro Max_ge) simp_all
  have "?f (rs ! j) < ?f sd" if "j < i" for j
    using that before le [of j] i by (simp add: less_le)
  with i le show ?thesis by auto
qed

lemma slot_Some:
  "u \<noteq> [] \<Longrightarrow> slot u lines (Some b) = first_maximal (b # user_records u lines)"
proof (induction lines arbitrary: b)
  case Nil
  then show ?case by (simp add: user_records_def first_maximal_single)
next
  case (Cons line rest)
  then show ?case
    by (cases line) (auto simp: user_records_def first_maximal_Cons2)
qed

lemma slot_None: "slot u lines None = retained_for u lines"
proof (induction lines)
  case Nil
  then show ?case by (simp add: retained_for_def user_records_def first_maximal_def)
next
  case (Cons line rest)
  show ?case
  proof (cases line)
    case Malformed
    then show ?thesis using Cons by (simp add: retained_for_def user_records_def)
  next
    case (Parsed sd)
    show ?thesis
    proof (cases "user_id sd = Some u \<and> u \<noteq> []")
      case True
      then show ?thesis using Parsed slot_Some [of u rest sd]
        by (simp add: retained_for_def user_records_def)
    next
      case False
      then show ?thesis using Parsed Cons
        by (auto simp add: retained_for_def user_records_def)
    qed
  qed
qed

subsection \<open>The processing steps only append\<close>

lemma report_riskiest_appends:
  "\<exists>new. report_riskiest i items report_list = report_list @ new \<and> list_all entry_justified new"
proof (induction items arbitrary: i report_list)
  case Nil
  then show ?case by simp
next
  case (Cons item rest)
  obtain uid b where item: "item = (uid, b)" by (cases item)
  show ?case
  proof (cases "map_markov_sequence (data b) = []")
    case True
    then show ?thesis using Cons [of "i + 1" report_list] item by simp
  next
    case False
    let ?e = "markov_entry i uid (data b) (map_markov_sequence (data b))"
    obtain new where new:
      "report_riskiest (i + 1) rest (report_list @ [?e]) = (report_list @ [?e]) @ new"
      "list_all entry_justified new"
      using Cons [of "i + 1" "report_list @ [?e]"] by blast
    have "entry_justified ?e"
      using False by (simp add: entry_justified_def markov_entry_def)
    with new have "report_riskiest i (item # rest) report_list = report_list @ (?e # new)
                     \<and> list_all entry_justified (?e # new)"
      using item False by (simp add: Let_def)
    then show ?thesis by blast
  qed
qed

lemma som_loop_appends:
  "\<exists>new. fst (som_loop i som_results report_list) = report_list @ new
           \<and> list_all entry_justified new"
proof (induction som_results arbitrary: i report_list)
  case Nil
  then show ?case by simp
next
  case (Cons som_data rest)
  show ?case
  proof (cases "map_som_results som_data")
    case (Inl e)
    then show ?thesis by simp
  next
    case (Inr techniques)
    show ?thesis
    proof (cases "techniques = []")
      case True
      then show ?thesis using Cons [of "i + 1" report_list] Inr by simp
    next
      case False
      let ?e = "som_entry i som_data techniques"
      obtain new where new:
        "fst (som_loop (i + 1) rest (report_list @ [?e])) = (report_list @ [?e]) @ new"
        "list_all entry_justified new"
        using Cons [of "i + 1" "report_list @ [?e]"] by blast
      have "entry_justified ?e"
        using False Inr by (simp add: entry_justified_def som_entry_def)
      with new have "fst (som_loop i (som_data # rest) report_list) = report_list @ (?e # new)
                       \<and> list_all entry_justified (?e # new)"
        using Inr False by simp
      then show ?thesis by blast
    qed
  qed
qed

lemma process_markov_file_appends:
  "\<exists>new. fst (process_markov_file f report_list) = report_list @ new
           \<and> list_all entry_justified new"
proof (cases f)
  case (Inl e)
  then show ?thesis by (simp add: process_markov_file_def)
next
  case (Inr lines)
  then show ?thesis
    using report_riskiest_appends [of 0 "riskiest_sequences_by_user lines" report_list]
    by (simp add: process_markov_file_def)
qed

lemma process_som_file_appends:
  "\<exists>new. fst (process_som_file f report_list) = report_list @ new
           \<and> list_all entry_justified new"
proof (cases f)
  case (Inl e)
  then show ?thesis by (simp add: process_som_file_def)
next
  case (Inr som_results)
  obtain r x where "som_loop 0 som_results report_list = (r, x)"
    by (cases "som_loop 0 som_results report_list")
  then show ?thesis
    using som_loop_appends [of 0 som_results report_list] Inr
    by (auto simp add: process_som_file_def split: option.splits)
qed

subsection \<open>The main block\<close>

text \<open>
  Either the run leaves the report file as it found it, or it completed with a report
  that extends the loaded one by at least one entry, and wrote that report.
\<close>

lemma main_cases:
  "fst (main jl jd a rf) = rf
   \<or> (\<exists>r0 new. snd (load_existing_report jl rf) = Inr r0 \<and> new \<noteq> []
         \<and> main jl jd a rf = (write_report jd rf (r0 @ new), Completed (r0 @ new)))"
proof (cases "markov_file a = None \<and> som_file a = None")
  case True
  then show ?thesis by (simp add: main_def)
next
  case False
  show ?thesis
  proof (cases "snd (load_existing_report jl rf)")
    case (Inl e)
    then show ?thesis using False by (simp add: main_def)
  next
    case (Inr r0)
    define m where
      "m = (case markov_file a of Some f \<Rightarrow> process_markov_file f r0 | None \<Rightarrow> (r0, None))"
    have "\<exists>n1. fst m = r0 @ n1"
    proof (cases "markov_file a")
      case None
      then show ?thesis by (simp add: m_def)
    next
      case (Some f)
      then show ?thesis using process_markov_file_appends [of f r0] by (auto simp: m_def)
    qed
    then obtain n1 where n1: "fst m = r0 @ n1" by blast
    define s where
      "s = (case som_file a of Some f \<Rightarrow> process_som_file f (fst m) | None \<Rightarrow> (fst m, None))"
    have "\<exists>n2. fst s = fst m @ n2"
    proof (cases "som_file a")
      case None
      then show ?thesis by (simp add: s_def)
    next
      case (Some f)
      then show ?thesis using process_som_file_appends [of f "fst m"] by (auto simp: s_def)
    qed
    then obtain n2 where n2: "fst s = fst m @ n2" by blast
    obtain r1 x1 where m: "m = (r1, x1)" by (cases m)
    obtain r2 x2 where s: "s = (r2, x2)" by (cases s)
    have unfolded: "main jl jd a rf =
       (case m of
          (r1, Some e) \<Rightarrow> (rf, Uncaught e)
        | (r1, None) \<Rightarrow>
            (case (case som_file a of Some f \<Rightarrow> process_som_file f r1 | None \<Rightarrow> (r1, None)) of
               (r2, Some e) \<Rightarrow> (rf, Uncaught e)
             | (r2, None) \<Rightarrow>
                 (if length r2 > length r0 then (write_report jd rf r2, Completed r2)
                  else (rf, Completed r2))))"
      using False Inr unfolding main_def Let_def m_def by simp
    have s': "(case som_file a of Some f \<Rightarrow> process_som_file f r1 | None \<Rightarrow> (r1, None)) = (r2, x2)"
      using s m unfolding s_def by (cases "som_file a") simp_all
    have mn: "main jl jd a rf =
       (case x1 of
          Some e \<Rightarrow> (rf, Uncaught e)
        | None \<Rightarrow>
            (case x2 of
               Some e \<Rightarrow> (rf, Uncaught e)
             | None \<Rightarrow>
                 if length r2 > length r0 then (write_report jd rf r2, Completed r2)
                 else (rf, Completed r2)))"
      unfolding unfolded m by (cases x1; cases x2) (simp_all add: s')
    have r2: "r2 = r0 @ (n1 @ n2)"
      using n1 n2 m s by simp
    show ?thesis
    proof (cases "x1 = None \<and> x2 = None \<and> length r2 > length r0")
      case True
      then have "main jl jd a rf = (write_report jd rf (r0 @ (n1 @ n2)), Completed (r0 @ (n1 @ n2)))"
        and "n1 @ n2 \<noteq> []"
        using mn r2 by auto
      then show ?thesis using Inr by blast
    next
      case False
      then show ?thesis using mn by (auto split: option.splits)
    qed
  qed
qed

section \<open>The claims\<close>

text \<open>
  C1. The sequence-source normalizer: with the score absent the metric is 0.0, with a
  score equal to 0.0 it is exactly 1.0, and with a score above 0.0 it is
  \<open>min(1.0, score / 4.0)\<close>, which does not decrease when the score grows. The metric
  computed inside the rule engine is the one \<open>calculate_risk_score\<close> returns.
\<close>

theorem sequence_metric:
  "calculate_risk_score (r\<lparr>score := None\<rparr>) = 0.0
   \<and> calculate_risk_score (r\<lparr>score := Some 0.0\<rparr>) = 1.0
   \<and> (0.0 < s \<longrightarrow> calculate_risk_score (r\<lparr>score := Some s\<rparr>) = min 1.0 (s / 4.0))
   \<and> (0.0 < s \<and> s \<le> s' \<longrightarrow>
        calculate_risk_score (r\<lparr>score := Some s\<rparr>) \<le> calculate_risk_score (r'\<lparr>score := Some s'\<rparr>))
   \<and> anomaly_score_of (score r) = calculate_risk_score r"
  by (auto simp add: calculate_risk_score_def anomaly_score_of_def split: option.splits)

theorem sequence_metric_witness:
  "(0::real) < 2 \<and> (2::real) \<le> 8
   \<and> calculate_risk_score (example_2\<lparr>score := Some 2\<rparr>) = 1 / 2
   \<and> calculate_risk_score (example_2\<lparr>score := Some 2\<rparr>)
       \<le> calculate_risk_score (example_1\<lparr>score := Some 8\<rparr>)"
  using sequence_metric [of example_2 2 8 example_1] by simp

text \<open>
  C2. A sequence record whose anomaly metric is below 0.9 gets no technique match from
  \<open>map_markov_sequence\<close>, whatever its actions are.
\<close>

theorem gate_below_threshold:
  "calculate_risk_score r < 0.9 \<Longrightarrow> map_markov_sequence r = []"
  by (simp add: map_markov_sequence_def gate_closed)

theorem gate_below_threshold_witness:
  "calculate_risk_score example_2 < 0.9 \<and> map_markov_sequence example_2 = []"
proof -
  have low: "calculate_risk_score example_2 < 0.9"
    by (simp add: calculate_risk_score_def example_2_def)
  from low gate_below_threshold [OF low] show ?thesis by simp
qed

text \<open>
  C3. The claim is that evaluating \<open>map_som_results\<close> never faults on a division, a
  zero \<open>total_epochs\<close> being treated as 1. The code substitutes 1 only for an absent
  \<open>total_epochs\<close>: on a record with \<open>total_epochs = 0\<close> line 93 raises
  \<open>ZeroDivisionError\<close>, \<open>process_som_file\<close> does not catch it, and the run ends
  without writing the report, also losing the detections found before that record.
\<close>

theorem zero_epochs_raises:
  "map_som_results zero_epochs = Inl ZeroDivisionError
   \<and> snd (process_som_file (Inr [example_3, zero_epochs]) []) = Some ZeroDivisionError
   \<and> main (load_as []) dump_count
        \<lparr> markov_file = None, som_file = Some (Inr [example_3, zero_epochs]) \<rparr> stored_report
       = (stored_report, Uncaught ZeroDivisionError)"
  by code_simp

text \<open>
  C4. The per-user reducer keeps one slot per user identifier; a user has a slot exactly
  when the identifier is not empty and some record of the batch carries it; and the slot
  holds the first record, in input order, among those of the user with the maximal risk
  score. Records without a user identifier belong to no user and reach no slot.
\<close>

theorem per_user_reducer:
  "distinct (map fst (riskiest_sequences_by_user lines))
   \<and> (u \<in> fst ` set (riskiest_sequences_by_user lines)) = (u \<noteq> [] \<and> user_records u lines \<noteq> [])
   \<and> map_option data (map_of (riskiest_sequences_by_user lines) u) = retained_for u lines"
proof -
  let ?d = "riskiest_sequences_by_user lines"
  have d: "distinct (map fst ?d)"
    using reduce_lines_distinct [of "[]" lines 0] by (simp add: riskiest_sequences_by_user_def)
  have r: "map_option data (map_of ?d u) = retained_for u lines"
    using reduce_lines_slot [of "[]" lines 0 u]
    by (simp add: riskiest_sequences_by_user_def consistent_def slot_None)
  have "(u \<in> fst ` set ?d) = (map_of ?d u \<noteq> None)"
    by (simp add: map_of_eq_None_iff)
  also have "\<dots> = (retained_for u lines \<noteq> None)"
    using r [symmetric] by (cases "map_of ?d u") simp_all
  also have "\<dots> = (u \<noteq> [] \<and> user_records u lines \<noteq> [])"
    using first_maximal_None_iff [of "user_records u lines"] by (auto simp: retained_for_def)
  finally show ?thesis using d r by simp
qed

theorem per_user_reducer_witness:
  "map fst (riskiest_sequences_by_user batch) = [''a'', ''b'']
   \<and> user_records ''a'' batch =
       [rec_of (Some ''a'') ''1'' (Some 2), rec_of (Some ''a'') ''5'' (Some 3),
        rec_of (Some ''a'') ''6'' (Some 3)]
   \<and> map_option data (map_of (riskiest_sequences_by_user batch) ''a'')
       = Some (rec_of (Some ''a'') ''5'' (Some 3))
   \<and> map_of (riskiest_sequences_by_user batch) [] = None"
proof -
  have keys: "map fst (riskiest_sequences_by_user batch) = [''a'', ''b'']"
    by code_simp
  have recs: "user_records ''a'' batch =
       [rec_of (Some ''a'') ''1'' (Some 2), rec_of (Some ''a'') ''5'' (Some 3),
        rec_of (Some ''a'') ''6'' (Some 3)]"
    by code_simp
  have kept: "retained_for ''a'' batch = Some (rec_of (Some ''a'') ''5'' (Some 3))"
    by code_simp
  have none: "retained_for [] batch = None"
    by (simp add: retained_for_def)
  from per_user_reducer [of batch "''a''"] per_user_reducer [of batch "[]"] keys recs kept none
  show ?thesis by simp
qed

text \<open>
  C5. The maximal-anomaly fallback match is among the matches of a sequence record
  exactly when the anomaly metric is 1.0 and neither the suspicious-login rule nor the
  repetitive-action rule produced a match for the record; the fallback match is the
  tactic TA0009, Collection, with confidence 0.55.
\<close>

theorem fallback_iff:
  "fired ''markov_max_anomaly_score_fallback'' (map_markov_sequence r) =
     (calculate_risk_score r = 1.0
      \<and> \<not> fired ''markov_suspicious_login_pattern'' (map_markov_sequence r)
      \<and> \<not> fired ''markov_repetitive_action_pattern'' (map_markov_sequence r))
   \<and> list_all (\<lambda>t. rule_matched t = ''markov_max_anomaly_score_fallback'' \<longrightarrow>
                    id' t = ''TA0009'' \<and> name t = ''Collection'' \<and> confidence t = 0.55)
       (map_markov_sequence r)"
proof (cases "calculate_risk_score r < 0.9")
  case True
  then show ?thesis
    by (simp add: map_markov_sequence_def gate_closed fired_def)
next
  case False
  from map_markov_generic_shapes [OF False] show ?thesis
    by (auto simp: map_markov_sequence_def fired_def)
qed

theorem fallback_iff_witness:
  "map_markov_sequence no_pattern = [fallback_match 1]
   \<and> calculate_risk_score no_pattern = 1
   \<and> fired ''markov_max_anomaly_score_fallback'' (map_markov_sequence no_pattern)
   \<and> calculate_risk_score example_1 = 1
   \<and> fired ''markov_suspicious_login_pattern'' (map_markov_sequence example_1)
   \<and> \<not> fired ''markov_max_anomaly_score_fallback'' (map_markov_sequence example_1)"
proof -
  have "map_markov_sequence no_pattern = [fallback_match 1]"
    and "calculate_risk_score no_pattern = 1"
    and "calculate_risk_score example_1 = 1"
    and "fired ''markov_suspicious_login_pattern'' (map_markov_sequence example_1)"
    by code_simp+
  with fallback_iff [of no_pattern] fallback_iff [of example_1] show ?thesis
    by (simp add: fired_def)
qed

text \<open>
  C6. The claim is that, for every map-source record, the always-flagged rule produces
  the T1090 match exactly when \<open>flagged_epochs = total_epochs\<close> and
  \<open>attack_score = 0\<close>. On the record below both hold, with
  \<open>flagged_epochs = total_epochs = 0\<close>, and no match is produced: the division of
  line 93 raises \<open>ZeroDivisionError\<close> before the rule is reached. On every record on
  which \<open>map_som_results\<close> returns, the rule fires as claimed
  (\<open>proxy_rule_where_returns\<close>).
\<close>

theorem always_flagged_never_evaluated:
  "get_default (som_flagged_epochs never_evaluated) 0
     = get_default (som_total_epochs never_evaluated) 1
   \<and> get_default (som_attack_score never_evaluated) 0 = 0
   \<and> map_som_results never_evaluated = Inl ZeroDivisionError"
  by code_simp

text \<open>
  C7. The main block rewrites the report file only when the report in memory is longer
  than the report it loaded: a run that changes the file has completed with at least
  one appended entry and has written exactly that report, and a run that completes with
  a report no longer than the loaded one leaves the file as it was.
\<close>

theorem report_rewritten_only_when_grown:
  "(fst (main jl jd a rf) \<noteq> rf \<longrightarrow>
      (\<exists>r0 new. snd (load_existing_report jl rf) = Inr r0 \<and> new \<noteq> []
         \<and> snd (main jl jd a rf) = Completed (r0 @ new)
         \<and> fst (main jl jd a rf) = write_report jd rf (r0 @ new)))
   \<and> (snd (load_existing_report jl rf) = Inr r0 \<and> snd (main jl jd a rf) = Completed r
        \<and> length r \<le> length r0 \<longrightarrow> fst (main jl jd a rf) = rf)"
proof -
  consider (same) "fst (main jl jd a rf) = rf"
    | (grown) l new where "snd (load_existing_report jl rf) = Inr l" "new \<noteq> []"
        "main jl jd a rf = (write_report jd rf (l @ new), Completed (l @ new))"
    using main_cases [of jl jd a rf] by blast
  then show ?thesis
  proof cases
    case same
    then show ?thesis by simp
  next
    case grown
    then show ?thesis by auto
  qed
qed

theorem report_rewritten_only_when_grown_witness:
  "snd (load_existing_report (load_as []) stored_report) = Inr []
   \<and> main (load_as []) dump_count
        \<lparr> markov_file = Some (Inr [Parsed example_2]), som_file = None \<rparr> stored_report
       = (stored_report, Completed [])
   \<and> fst (main (load_as []) dump_count
        \<lparr> markov_file = Some (Inr [Parsed example_1]), som_file = None \<rparr> stored_report)
       = stored_report\<lparr>rf_content := Some ''1''\<rparr>
   \<and> stored_report\<lparr>rf_content := Some ''1''\<rparr> \<noteq> stored_report"
proof -
  let ?quiet = "\<lparr> markov_file = Some (Inr [Parsed example_2]), som_file = None \<rparr>"
  let ?loud = "\<lparr> markov_file = Some (Inr [Parsed example_1]), som_file = None \<rparr>"
  have loaded: "snd (load_existing_report (load_as []) stored_report) = Inr []"
    by code_simp
  have quiet: "snd (main (load_as []) dump_count ?quiet stored_report) = Completed []"
    by code_simp
  have loud: "fst (main (load_as []) dump_count ?loud stored_report)
                = stored_report\<lparr>rf_content := Some ''1''\<rparr>"
    by code_simp
  have differ: "stored_report\<lparr>rf_content := Some ''1''\<rparr> \<noteq> stored_report"
    by (simp add: stored_report_def)
  have "fst (main (load_as []) dump_count ?quiet stored_report) = stored_report"
    using report_rewritten_only_when_grown
            [where jl = "load_as []" and jd = dump_count and a = ?quiet and rf = stored_report
               and ?r0.0 = "[]" and r = "[]"]
      loaded quiet
    by simp
  with quiet have "main (load_as []) dump_count ?quiet stored_report = (stored_report, Completed [])"
    by (simp add: prod_eq_iff)
  with loaded loud differ show ?thesis by simp
qed

text \<open>
  C8, as the code has it. \<open>load_existing_report\<close> returns the parsed report when the
  file exists, is not empty, opens and parses; it returns the empty report when the
  file is absent or empty; and it prints the warning and returns the empty report when
  reading raises \<open>JSONDecodeError\<close> or \<open>FileNotFoundError\<close>. These are the two
  exceptions its \<open>except\<close> clause names: an exception that escapes is neither, and
  any other exception raised while reading escapes.
\<close>

theorem load_existing_report_handled:
  "(rf_content rf = None \<or> rf_content rf = Some [] \<longrightarrow>
      load_existing_report jl rf = ([], Inr []))
   \<and> (rf_content rf = Some bytes \<and> bytes \<noteq> [] \<and> rf_read_error rf = None
        \<and> jl bytes = Inr report \<longrightarrow>
      load_existing_report jl rf = ([Loading_existing_report], Inr report))
   \<and> (rf_content rf = Some bytes \<and> bytes \<noteq> [] \<and> rf_read_error rf = None
        \<and> jl bytes = Inl e \<and> (e = JSONDecodeError \<or> e = FileNotFoundError) \<longrightarrow>
      load_existing_report jl rf
        = ([Loading_existing_report, Warning_could_not_load e], Inr []))
   \<and> (rf_content rf = Some bytes \<and> bytes \<noteq> [] \<and> rf_read_error rf = Some FileNotFoundError \<longrightarrow>
      load_existing_report jl rf = ([Warning_could_not_load FileNotFoundError], Inr []))
   \<and> (snd (load_existing_report jl rf) = Inl e' \<longrightarrow>
        e' \<noteq> JSONDecodeError \<and> e' \<noteq> FileNotFoundError)
   \<and> (rf_content rf = Some bytes \<and> bytes \<noteq> []
        \<and> (rf_read_error rf = Some x \<or> rf_read_error rf = None \<and> jl bytes = Inl x)
        \<and> x \<noteq> JSONDecodeError \<and> x \<noteq> FileNotFoundError \<longrightarrow>
      snd (load_existing_report jl rf) = Inl x)"
proof -
  have absent: "rf_content rf = None \<or> rf_content rf = Some [] \<longrightarrow>
      load_existing_report jl rf = ([], Inr [])"
    by (auto simp: load_existing_report_def)
  have parsed: "rf_content rf = Some bytes \<and> bytes \<noteq> [] \<and> rf_read_error rf = None
        \<and> jl bytes = Inr report \<longrightarrow>
      load_existing_report jl rf = ([Loading_existing_report], Inr report)"
    by (simp add: load_existing_report_def)
  have unparsable: "rf_content rf = Some bytes \<and> bytes \<noteq> [] \<and> rf_read_error rf = None
        \<and> jl bytes = Inl e \<and> (e = JSONDecodeError \<or> e = FileNotFoundError) \<longrightarrow>
      load_existing_report jl rf
        = ([Loading_existing_report, Warning_could_not_load e], Inr [])"
    by (auto simp: load_existing_report_def)
  have vanished: "rf_content rf = Some bytes \<and> bytes \<noteq> []
        \<and> rf_read_error rf = Some FileNotFoundError \<longrightarrow>
      load_existing_report jl rf = ([Warning_could_not_load FileNotFoundError], Inr [])"
    by (simp add: load_existing_report_def)
  have escaping: "snd (load_existing_report jl rf) = Inl e' \<longrightarrow>
        e' \<noteq> JSONDecodeError \<and> e' \<noteq> FileNotFoundError"
    by (auto simp: load_existing_report_def split: option.splits sum.splits if_splits)
  have uncaught: "rf_content rf = Some bytes \<and> bytes \<noteq> []
        \<and> (rf_read_error rf = Some x \<or> rf_read_error rf = None \<and> jl bytes = Inl x)
        \<and> x \<noteq> JSONDecodeError \<and> x \<noteq> FileNotFoundError \<longrightarrow>
      snd (load_existing_report jl rf) = Inl x"
    by (auto simp: load_existing_report_def)
  show ?thesis
    by (intro conjI) (fact absent parsed unparsable vanished escaping uncaught)+
qed

theorem load_existing_report_handled_witness:
  "load_existing_report (load_as []) (stored_report\<lparr>rf_content := None\<rparr>) = ([], Inr [])
   \<and> load_existing_report (load_as []) stored_report = ([Loading_existing_report], Inr [])
   \<and> load_existing_report (load_raises JSONDecodeError) stored_report
       = ([Loading_existing_report, Warning_could_not_load JSONDecodeError], Inr [])
   \<and> load_existing_report (load_as []) (stored_report\<lparr>rf_read_error := Some FileNotFoundError\<rparr>)
       = ([Warning_could_not_load FileNotFoundError], Inr [])
   \<and> snd (load_existing_report (load_raises UnicodeDecodeError) stored_report)
       = Inl UnicodeDecodeError
   \<and> UnicodeDecodeError \<noteq> JSONDecodeError \<and> UnicodeDecodeError \<noteq> FileNotFoundError"
proof -
  note inst = load_existing_report_handled
    [where bytes = "''[]''" and report = "[]" and e = JSONDecodeError
       and e' = UnicodeDecodeError and x = UnicodeDecodeError]
  have absent:
    "load_existing_report (load_as []) (stored_report\<lparr>rf_content := None\<rparr>) = ([], Inr [])"
    using inst [where rf = "stored_report\<lparr>rf_content := None\<rparr>" and jl = "load_as []"]
    by simp
  have parsed:
    "load_existing_report (load_as []) stored_report = ([Loading_existing_report], Inr [])"
    using inst [where rf = stored_report and jl = "load_as []"]
    by (simp add: stored_report_def load_as_def)
  have unparsable:
    "load_existing_report (load_raises JSONDecodeError) stored_report
       = ([Loading_existing_report, Warning_could_not_load JSONDecodeError], Inr [])"
    using inst [where rf = stored_report and jl = "load_raises JSONDecodeError"]
    by (simp add: stored_report_def load_raises_def)
  have vanished:
    "load_existing_report (load_as []) (stored_report\<lparr>rf_read_error := Some FileNotFoundError\<rparr>)
       = ([Warning_could_not_load FileNotFoundError], Inr [])"
    using inst [where rf = "stored_report\<lparr>rf_read_error := Some FileNotFoundError\<rparr>"
                  and jl = "load_as []"]
    by (simp add: stored_report_def)
  have uncaught:
    "snd (load_existing_report (load_raises UnicodeDecodeError) stored_report)
       = Inl UnicodeDecodeError"
    using inst [where rf = stored_report and jl = "load_raises UnicodeDecodeError"]
    by (simp add: stored_report_def load_raises_def)
  from absent parsed unparsable vanished uncaught show ?thesis by simp
qed

text \<open>
  C8, as claimed, says that loading returns an empty report on any read error. A report
  file that cannot be opened for reading for lack of permission raises
  \<open>PermissionError\<close>, which the \<open>except\<close> clause does not name: the exception
  escapes \<open>load_existing_report\<close>.
\<close>

theorem load_existing_report_unreadable:
  "snd (load_existing_report (load_as []) unreadable_report) = Inl PermissionError"
  by code_simp

text \<open>
  C9. Every entry that \<open>process_markov_file\<close> or \<open>process_som_file\<close> appends to the
  report is justified: its \<open>detected_techniques\<close> are not empty and are the matches
  the rule engine returned for the entry's record. Both steps leave the entries already
  in the report in place.
\<close>

theorem appended_entries_justified:
  "(\<exists>new. fst (process_markov_file mf report_list) = report_list @ new
            \<and> list_all entry_justified new
            \<and> list_all (\<lambda>e. detected_techniques e \<noteq> []) new)
   \<and> (\<exists>new. fst (process_som_file sf report_list) = report_list @ new
            \<and> list_all entry_justified new
            \<and> list_all (\<lambda>e. detected_techniques e \<noteq> []) new)"
proof -
  have weaker: "list_all (\<lambda>e. detected_techniques e \<noteq> []) new"
    if "list_all entry_justified new" for new
    using that by (simp add: list_all_iff entry_justified_def)
  from process_markov_file_appends [of mf report_list]
       process_som_file_appends [of sf report_list] weaker
  show ?thesis by blast
qed

theorem appended_entries_justified_witness:
  "fst (process_markov_file (Inr [Parsed example_1, Parsed example_2]) [])
     = [markov_entry 0 ''u1'' example_1 [login_match 1]]
   \<and> fst (process_som_file (Inr [example_3]) [])
     = [som_entry 0 example_3 [high_attack_match 5 0.5, mixed_match 5 1 0.5]]
   \<and> entry_justified (markov_entry 0 ''u1'' example_1 [login_match 1])
   \<and> entry_justified (som_entry 0 example_3 [high_attack_match 5 0.5, mixed_match 5 1 0.5])"
proof -
  have m: "fst (process_markov_file (Inr [Parsed example_1, Parsed example_2]) [])
             = [markov_entry 0 ''u1'' example_1 [login_match 1]]"
    by code_simp
  have s: "fst (process_som_file (Inr [example_3]) [])
             = [som_entry 0 example_3 [high_attack_match 5 0.5, mixed_match 5 1 0.5]]"
    by code_simp
  from appended_entries_justified
         [of "Inr [Parsed example_1, Parsed example_2]" "[]" "Inr [example_3]"]
  show ?thesis unfolding m s by simp
qed

text \<open>
  C10. Whatever the score, a suspicious-login match (T1078) returned by the sequence
  rule engine has confidence exactly 0.7 and a repetitive-action match (T1041) has
  confidence exactly 0.6: the matches are produced only behind the 0.9 gate.
\<close>

theorem gated_confidences:
  "list_all
     (\<lambda>t. (rule_matched t = ''markov_suspicious_login_pattern'' \<longrightarrow>
              id' t = ''T1078'' \<and> confidence t = 0.7)
         \<and> (rule_matched t = ''markov_repetitive_action_pattern'' \<longrightarrow>
              id' t = ''T1041'' \<and> confidence t = 0.6)
         \<and> (id' t = ''T1078'' \<longrightarrow> confidence t = 0.7)
         \<and> (id' t = ''T1041'' \<longrightarrow> confidence t = 0.6))
     (map_markov_sequence r)"
proof (cases "calculate_risk_score r < 0.9")
  case True
  then show ?thesis
    by (simp add: map_markov_sequence_def gate_closed)
next
  case False
  then have "min 0.7 (calculate_risk_score r) = 0.7" "min 0.6 (calculate_risk_score r) = 0.6"
    by simp_all
  with map_markov_generic_shapes [OF False] show ?thesis
    by (auto simp: map_markov_sequence_def)
qed

theorem gated_confidences_witness:
  "map_markov_sequence repeated_login = [login_match 1, repetitive_match 1]
   \<and> map confidence (map_markov_sequence repeated_login) = [0.7, 0.6]"
proof -
  have shape: "map_markov_sequence repeated_login = [login_match 1, repetitive_match 1]"
    by code_simp
  from gated_confidences [of repeated_login] show ?thesis
    unfolding shape by simp
qed

end
